theory Spec2Isabelle
  imports Complex_Main
begin

section \<open>Errors\<close>

text \<open>
  The notebooks raise Python exceptions; the model returns them as values of a sum
  type, \<open>Inl\<close> carrying the error.
\<close>

datatype error =
  FileNotFoundError
  | IndexError
  | IndexEmpty
  | ServiceUnreachable
  | MalformedOutput

section \<open>Ingestion: trimming the downloaded PDFs\<close>

text \<open>
  The cell of both notebooks:
  \<^verbatim>\<open>
  local_pdfs = glob.glob(data_root + '*.pdf')

  for local_pdf in local_pdfs:
      pdf_reader = PdfReader(local_pdf)
      pdf_writer = PdfWriter()
      for pagenum in range(len(pdf_reader.pages)-3):
          page = pdf_reader.pages[pagenum]
          pdf_writer.add_page(page)

      with open(local_pdf, 'wb') as new_file:
          new_file.seek(0)
          pdf_writer.write(new_file)
          new_file.truncate()
  \<close>
  A PDF file is the list of its pages (\<open>pdf_reader.pages\<close>); a page is a value of
  an arbitrary type \<open>'p\<close>. The directory is a map from paths to files, and
  \<open>local_pdfs\<close>, the result of \<open>glob.glob\<close>, is a list of paths.
\<close>

type_synonym 'p pdf = "'p list"

type_synonym 'p filesystem = "string \<rightharpoonup> 'p pdf"

text \<open>Python's \<open>range(n)\<close>: the integers from 0 below \<open>n\<close>, none when \<open>n \<le> 0\<close>.\<close>

definition range_py :: "int \<Rightarrow> int list" where
  "range_py n = [0..n - 1]"

text \<open>
  \<open>pdf_reader.pages[pagenum]\<close>: a negative index counts from the end, an index out
  of range raises IndexError.
\<close>

definition pages_getitem :: "'p pdf \<Rightarrow> int \<Rightarrow> error + 'p" where
  "pages_getitem pages pagenum =
     (let n = int (length pages);
          k = (if pagenum < 0 then pagenum + n else pagenum)
      in if k < 0 \<or> n \<le> k then Inl IndexError else Inr (pages ! nat k))"

text \<open>\<open>pdf_writer.add_page(page)\<close> appends the page to the writer's pages.\<close>

definition add_page :: "'p pdf \<Rightarrow> 'p \<Rightarrow> 'p pdf" where
  "add_page pdf_writer page = pdf_writer @ [page]"

text \<open>The inner loop, over the page numbers that \<open>range\<close> produced.\<close>

fun copy_pages :: "'p pdf \<Rightarrow> int list \<Rightarrow> 'p pdf \<Rightarrow> error + 'p pdf" where
  "copy_pages pages [] pdf_writer = Inr pdf_writer"
| "copy_pages pages (pagenum # rest) pdf_writer =
     (case pages_getitem pages pagenum of
        Inl e \<Rightarrow> Inl e
      | Inr page \<Rightarrow> copy_pages pages rest (add_page pdf_writer page))"

text \<open>The page numbers the inner loop visits for a file.\<close>

definition trim_pagenums :: "'p pdf \<Rightarrow> int list" where
  "trim_pagenums pages = range_py (int (length pages) - 3)"

text \<open>The writer's pages after the inner loop, starting from an empty \<open>PdfWriter()\<close>.\<close>

definition trim_pages :: "'p pdf \<Rightarrow> error + 'p pdf" where
  "trim_pages pages = copy_pages pages (trim_pagenums pages) []"

text \<open>One iteration of the outer loop: read the file, copy, overwrite it in place.\<close>

definition trim_file :: "'p filesystem \<Rightarrow> string \<Rightarrow> error + 'p filesystem" where
  "trim_file fs local_pdf =
     (case fs local_pdf of
        None \<Rightarrow> Inl FileNotFoundError
      | Some pages \<Rightarrow>
          (case trim_pages pages of
             Inl e \<Rightarrow> Inl e
           | Inr pdf_writer \<Rightarrow> Inr (fs(local_pdf \<mapsto> pdf_writer))))"

text \<open>The outer loop over \<open>local_pdfs\<close>; an exception ends it.\<close>

fun trim_cell :: "'p filesystem \<Rightarrow> string list \<Rightarrow> error + 'p filesystem" where
  "trim_cell fs [] = Inr fs"
| "trim_cell fs (local_pdf # rest) =
     (case trim_file fs local_pdf of
        Inl e \<Rightarrow> Inl e
      | Inr fs' \<Rightarrow> trim_cell fs' rest)"

text \<open>Running the trim step on one file \<open>k\<close> times in a row.\<close>

fun trim_times :: "nat \<Rightarrow> 'p filesystem \<Rightarrow> string \<Rightarrow> error + 'p filesystem" where
  "trim_times 0 fs local_pdf = Inr fs"
| "trim_times (Suc k) fs local_pdf =
     (case trim_file fs local_pdf of
        Inl e \<Rightarrow> Inl e
      | Inr fs' \<Rightarrow> trim_times k fs' local_pdf)"

section \<open>Configuration: prompt template, models, service context\<close>

text \<open>
  The Claude notebook defines its own choice-select template and wraps it in a
  \<open>Prompt\<close>; the Titan notebook defines none. The template is kept line by line;
  \<open>CHR 0x22\<close> is the double quote and \<open>CHR 0x27\<close> the apostrophe of the source.
\<close>

definition join_lines :: "string list \<Rightarrow> string" where
  "join_lines ls =
     (case ls of [] \<Rightarrow> [] | l # rest \<Rightarrow> foldl (\<lambda>acc x. acc @ [CHR 0x0A] @ x) l rest)"

definition CLAUDE_CHOICE_SELECT_PROMPT_TMPL :: string where
  "CLAUDE_CHOICE_SELECT_PROMPT_TMPL = join_lines
    [[],
     ''    '',
     ''    Human: A list of documents is shown below. Each document has a number next to it along  with a summary of the document. A question is also provided. '',
     ''    Respond with the respective document number. You should consult to answer the question, in order of relevance, as well as the relevance score. '',
     ''    The relevance score is a number from 1-10 based on how relevant you think the document is to the question.'',
     [CHR 0x22],
     ''    Do not include any documents that are not relevant to the question. '',
     ''    '',
     ''    Example format: '',
     ''    Document 1:'',
     ''<summary of document 1>'',
     ''    Document 2:'',
     ''<summary of document 2>'',
     ''    ...'',
     [],
     [],
     ''    Document 10:'',
     ''<summary of document 10>'',
     ''    '',
     ''    Question: <question>'',
     ''    Answer:'',
     ''    Doc: 9, Relevance: 7'',
     ''    Doc: 3, Relevance: 4'',
     ''    Doc: 7, Relevance: 3'',
     [],
     ''    Let'' @ [CHR 0x27] @ ''s try this now: '',
     ''    {context_str}'',
     [],
     ''    Question: {query_str}'',
     ''    '',
     ''    Assistant: Answer:'']"

datatype prompt_type = CHOICE_SELECT

datatype prompt = Prompt string prompt_type

definition claude_choice_select_prompt :: prompt where
  "claude_choice_select_prompt = Prompt CLAUDE_CHOICE_SELECT_PROMPT_TMPL CHOICE_SELECT"

text \<open>
  \<open>Bedrock(model_id=..., model_kwargs=..., client=bedrock_client)\<close>: the model's
  identifier and its request parameters. The values of the two dictionaries are
  integers, decimal numbers and a list of strings.
\<close>

datatype kwarg_value = IntVal int | FloatVal real | ListVal "string list"

record bedrock_llm =
  model_id :: string
  model_kwargs :: "(string \<times> kwarg_value) list"

definition model_kwargs_claude :: "(string \<times> kwarg_value) list" where
  "model_kwargs_claude =
     [(''temperature'', IntVal 0), (''top_k'', IntVal 10), (''max_tokens_to_sample'', IntVal 512)]"

definition model_kwargs_titan :: "(string \<times> kwarg_value) list" where
  "model_kwargs_titan =
     [(''maxTokenCount'', IntVal 512), (''stopSequences'', ListVal []),
      (''temperature'', FloatVal 0), (''topP'', FloatVal (1 / 2))]"

definition llm_claude :: bedrock_llm where
  "llm_claude = \<lparr>model_id = ''anthropic.claude-v2'', model_kwargs = model_kwargs_claude\<rparr>"

definition llm_titan :: bedrock_llm where
  "llm_titan = \<lparr>model_id = ''amazon.titan-text-express-v1'', model_kwargs = model_kwargs_titan\<rparr>"

text \<open>
  \<open>ServiceContext.from_defaults(llm=llm, embed_model=embed_model, chunk_size=512)\<close>;
  the embedding model is \<open>BedrockEmbeddings(model_id="amazon.titan-embed-text-v1")\<close> in
  both notebooks. No chunk overlap is passed.
\<close>

record service_context =
  llm :: bedrock_llm
  embed_model :: string
  chunk_size :: int

definition service_context_claude :: service_context where
  "service_context_claude =
     \<lparr>llm = llm_claude, embed_model = ''amazon.titan-embed-text-v1'', chunk_size = 512\<rparr>"

definition service_context_titan :: service_context where
  "service_context_titan =
     \<lparr>llm = llm_titan, embed_model = ''amazon.titan-embed-text-v1'', chunk_size = 512\<rparr>"

section \<open>Query-time retrieval: the function \<open>get_retrieved_nodes\<close>\<close>

text \<open>
  A chunk is a node with an identifier and its text; a retrieval result pairs a node
  with a score. Python's float scores are read as real numbers: the claims compare
  scores and never compute with them.
\<close>

record text_node =
  node_id :: string
  get_text :: string

record node_with_score =
  node :: text_node
  score :: real

record query_bundle =
  query_str :: string

definition QueryBundle :: "string \<Rightarrow> query_bundle" where
  "QueryBundle q = \<lparr>query_str = q\<rparr>"

text \<open>
  The two library objects the function configures.
  \<open>VectorIndexRetriever(index=..., similarity_top_k=..., choice_select_prompt=...)\<close>:
  the last argument is passed by the Claude notebook only.
  \<open>LLMRerank(choice_batch_size=..., top_n=..., service_context=..., choice_select_prompt=...)\<close>:
  again the Claude notebook alone passes a template; \<open>None\<close> stands for the
  library's default.
\<close>

record 'i vector_index_retriever =
  retriever_index :: 'i
  similarity_top_k :: int
  retriever_choice_select_prompt :: "prompt option"

record llm_rerank =
  choice_batch_size :: int
  top_n :: int
  rerank_service_context :: service_context
  choice_select_prompt :: "prompt option"

text \<open>
  The Claude notebook:
  \<^verbatim>\<open>
  def get_retrieved_nodes(
      query_str, vector_top_k=10, reranker_top_n=3, with_reranker=False
  ):
      query_bundle = QueryBundle(query_str)
      # configure retriever
      retriever = VectorIndexRetriever(
          index=index,
          similarity_top_k=vector_top_k,
          choice_select_prompt=claude_choice_select_prompt
      )
      retrieved_nodes = retriever.retrieve(query_bundle)

      if with_reranker:
          # configure reranker
          reranker = LLMRerank(
              choice_batch_size=5,
              top_n=reranker_top_n,
              service_context=service_context,
              choice_select_prompt=claude_choice_select_prompt
          )
          retrieved_nodes = reranker.postprocess_nodes(retrieved_nodes, query_bundle)

      return retrieved_nodes
  \<close>
  The library methods \<open>retrieve\<close> and \<open>postprocess_nodes\<close> and the notebook's
  globals \<open>index\<close> and \<open>service_context\<close> are parameters; an exception of either
  method leaves the function.
\<close>

definition retriever_claude :: "'i \<Rightarrow> int \<Rightarrow> 'i vector_index_retriever" where
  "retriever_claude index vector_top_k =
     \<lparr>retriever_index = index, similarity_top_k = vector_top_k,
      retriever_choice_select_prompt = Some claude_choice_select_prompt\<rparr>"

definition reranker_claude :: "service_context \<Rightarrow> int \<Rightarrow> llm_rerank" where
  "reranker_claude sc reranker_top_n =
     \<lparr>choice_batch_size = 5, top_n = reranker_top_n, rerank_service_context = sc,
      choice_select_prompt = Some claude_choice_select_prompt\<rparr>"

definition get_retrieved_nodes_claude ::
  "('i vector_index_retriever \<Rightarrow> query_bundle \<Rightarrow> error + node_with_score list) \<Rightarrow>
   (llm_rerank \<Rightarrow> node_with_score list \<Rightarrow> query_bundle \<Rightarrow> error + node_with_score list) \<Rightarrow>
   'i \<Rightarrow> service_context \<Rightarrow> string \<Rightarrow> int \<Rightarrow> int \<Rightarrow> bool \<Rightarrow> error + node_with_score list" where
  "get_retrieved_nodes_claude retrieve postprocess_nodes index sc q vector_top_k reranker_top_n
      with_reranker =
     (let query_bundle = QueryBundle q;
          retriever = retriever_claude index vector_top_k
      in case retrieve retriever query_bundle of
           Inl e \<Rightarrow> Inl e
         | Inr retrieved_nodes \<Rightarrow>
             if with_reranker
             then postprocess_nodes (reranker_claude sc reranker_top_n) retrieved_nodes query_bundle
             else Inr retrieved_nodes)"

text \<open>
  The Titan notebook's function is the same text without the two
  \<open>choice_select_prompt\<close> arguments.
\<close>

definition retriever_titan :: "'i \<Rightarrow> int \<Rightarrow> 'i vector_index_retriever" where
  "retriever_titan index vector_top_k =
     \<lparr>retriever_index = index, similarity_top_k = vector_top_k,
      retriever_choice_select_prompt = None\<rparr>"

definition reranker_titan :: "service_context \<Rightarrow> int \<Rightarrow> llm_rerank" where
  "reranker_titan sc reranker_top_n =
     \<lparr>choice_batch_size = 5, top_n = reranker_top_n, rerank_service_context = sc,
      choice_select_prompt = None\<rparr>"

definition get_retrieved_nodes_titan ::
  "('i vector_index_retriever \<Rightarrow> query_bundle \<Rightarrow> error + node_with_score list) \<Rightarrow>
   (llm_rerank \<Rightarrow> node_with_score list \<Rightarrow> query_bundle \<Rightarrow> error + node_with_score list) \<Rightarrow>
   'i \<Rightarrow> service_context \<Rightarrow> string \<Rightarrow> int \<Rightarrow> int \<Rightarrow> bool \<Rightarrow> error + node_with_score list" where
  "get_retrieved_nodes_titan retrieve postprocess_nodes index sc q vector_top_k reranker_top_n
      with_reranker =
     (let query_bundle = QueryBundle q;
          retriever = retriever_titan index vector_top_k
      in case retrieve retriever query_bundle of
           Inl e \<Rightarrow> Inl e
         | Inr retrieved_nodes \<Rightarrow>
             if with_reranker
             then postprocess_nodes (reranker_titan sc reranker_top_n) retrieved_nodes query_bundle
             else Inr retrieved_nodes)"


definition retrieved_nodes1_withreranker_titan ::
  "('i vector_index_retriever \<Rightarrow> query_bundle \<Rightarrow> error + node_with_score list) \<Rightarrow>
   (llm_rerank \<Rightarrow> node_with_score list \<Rightarrow> query_bundle \<Rightarrow> error + node_with_score list) \<Rightarrow>
   'i \<Rightarrow> error + node_with_score list" where
  "retrieved_nodes1_withreranker_titan retrieve postprocess_nodes index =
     get_retrieved_nodes_titan retrieve postprocess_nodes index service_context_titan
       ''How has AWS evolved?'' 3 3 True"

section \<open>The library's retriever and reranker, from their contracts\<close>

text \<open>
  \<open>VectorIndexRetriever.retrieve\<close> and \<open>LLMRerank.postprocess_nodes\<close> are methods
  of the llama_index library (version 0.8.37 is installed by the first cell), and the
  embedding and text-generation models are hosted services. None of them is among
  the notebooks' own code, so the two methods are written below from the contracts
  the specification gives them, with the services as parameters.
\<close>

subsection \<open>Vector retriever\<close>

text \<open>
  Modelled from the spec: the vector index and the embedding service, which are the
  library's and a hosted service. The index stores each chunk with its embedding
  vector. The embedding service is a function \<open>embed_query\<close> from a text to a
  vector, \<open>None\<close> when the service cannot be reached; \<open>similarity\<close> compares two
  vectors. \<open>score_nodes\<close> annotates each chunk with its similarity to the query.
\<close>

type_synonym 'e vector_index = "(text_node \<times> 'e) list"

definition score_nodes :: "('e \<Rightarrow> 'e \<Rightarrow> real) \<Rightarrow> 'e \<Rightarrow> 'e vector_index \<Rightarrow> node_with_score list" where
  "score_nodes similarity q entries =
     map (\<lambda>(n, e). \<lparr>node = n, score = similarity q e\<rparr>) entries"

text \<open>
  Modelled from the spec: the descending score order of both contracts. Chunks of
  equal score keep their order; the contracts state no policy for ties.
\<close>

definition by_descending_score :: "node_with_score list \<Rightarrow> node_with_score list" where
  "by_descending_score ns = sort_key (\<lambda>x. - score x) ns"

text \<open>
  Modelled from the spec: \<open>VectorIndexRetriever.retrieve\<close>, whose code is in the
  llama_index library and not in the notebooks. The contract (Vector Retriever):
  given a query string and a requested count K, returns the K chunks whose embedding
  vectors have highest similarity to the query's embedding, each annotated with its
  similarity score, in descending score order; fails if the index is empty or the
  embedding service is unreachable. An index of fewer than K chunks gives them all.
  The \<open>choice_select_prompt\<close> argument of the Claude notebook has no part in the
  contract and is not read.
\<close>

definition VectorIndexRetriever_retrieve ::
  "(string \<Rightarrow> 'e option) \<Rightarrow> ('e \<Rightarrow> 'e \<Rightarrow> real) \<Rightarrow>
   'e vector_index vector_index_retriever \<Rightarrow> query_bundle \<Rightarrow> error + node_with_score list" where
  "VectorIndexRetriever_retrieve embed_query similarity retriever query_bundle =
     (if retriever_index retriever = [] then Inl IndexEmpty
      else case embed_query (query_str query_bundle) of
             None \<Rightarrow> Inl ServiceUnreachable
           | Some q \<Rightarrow>
               Inr (take (nat (similarity_top_k retriever))
                      (by_descending_score (score_nodes similarity q (retriever_index retriever)))))"

subsection \<open>LLM reranker\<close>

text \<open>
  Modelled from the spec: the requests to the hosted text-generation model and its
  answers. One choice-select request carries the prompt template (\<open>None\<close>: the library's
  default), the batch of candidate chunks, numbered from 1 in the prompt, and the
  query. The hosted model's answer is read as its lines, each a document number with
  an integer relevance score; the model is a function of its configuration and the
  request.
\<close>

type_synonym choice_select_request = "prompt option \<times> text_node list \<times> string"

type_synonym choice_select_answer = "(int \<times> int) list"

text \<open>
  Modelled from the spec: the policy for a malformed answer. The specification leaves
  it open: the component's contract asks for an explicit error, the error handling
  section for skipping the line. Both are modelled.
\<close>

datatype malformed_policy = RaiseError | SkipLine

text \<open>
  Modelled from the spec: the partition into fixed-size batches. Batch \<open>i\<close> holds
  the candidates from position \<open>i * b\<close> up to, and without, position
  \<open>i * b + b\<close>; the last batch may be shorter.
\<close>

definition batches :: "nat \<Rightarrow> 'a list \<Rightarrow> 'a list list" where
  "batches b xs = map (\<lambda>i. take b (drop (i * b) xs)) [0..<(length xs + b - 1) div b]"

text \<open>
  Modelled from the spec: reading one answer against its batch. A line whose document
  number is not the number of a document of the batch is malformed (the contract names
  document numbers out of range). Every other line yields the chunk it names, with
  the line's relevance as its score, replacing the similarity score. The contract
  gives no rule for a document number that two lines name: such lines are read like
  any other.
\<close>

fun select_lines ::
  "malformed_policy \<Rightarrow> text_node list \<Rightarrow> choice_select_answer \<Rightarrow>
   error + node_with_score list" where
  "select_lines policy batch [] = Inr []"
| "select_lines policy batch ((doc, relevance) # rest) =
     (if 1 \<le> doc \<and> doc \<le> int (length batch)
      then (case select_lines policy batch rest of
              Inl e \<Rightarrow> Inl e
            | Inr chosen \<Rightarrow>
                Inr (\<lparr>node = batch ! nat (doc - 1), score = of_int relevance\<rparr> # chosen))
      else (case policy of
              RaiseError \<Rightarrow> Inl MalformedOutput
            | SkipLine \<Rightarrow> select_lines policy batch rest))"

text \<open>
  Modelled from the spec: the batches are handled one after the other, one prompt
  each (the reference behaviour is sequential). The state is the list of requests
  issued so far and the merged output so far; an error ends the loop.
\<close>

fun rerank_batches ::
  "malformed_policy \<Rightarrow> (choice_select_request \<Rightarrow> choice_select_answer) \<Rightarrow> prompt option \<Rightarrow>
   string \<Rightarrow> text_node list list \<Rightarrow> choice_select_request list \<times> node_with_score list \<Rightarrow>
   choice_select_request list \<times> (error + node_with_score list)" where
  "rerank_batches policy ask template q [] (issued, merged) = (issued, Inr merged)"
| "rerank_batches policy ask template q (batch # rest) (issued, merged) =
     (case select_lines policy batch (ask (template, batch, q)) of
        Inl e \<Rightarrow> (issued @ [(template, batch, q)], Inl e)
      | Inr chosen \<Rightarrow>
          rerank_batches policy ask template q rest
            (issued @ [(template, batch, q)], merged @ chosen))"

text \<open>
  Modelled from the spec: \<open>LLMRerank.postprocess_nodes\<close>, whose code is in the
  llama_index library and not in the notebooks. The contract (LLM Reranker): given an
  ordered candidate list of N chunks and a query, partitions the candidates into
  fixed-size batches, and for each batch issues one prompt instructing the model to
  output a subset of document numbers with integer relevance scores, omitting
  irrelevant documents; merges per-batch outputs, sorts the union by descending
  score, truncates to the requested top-N. \<open>LLMRerank_run\<close> also returns the
  requests it issued.
\<close>

definition LLMRerank_run ::
  "malformed_policy \<Rightarrow> (bedrock_llm \<Rightarrow> choice_select_request \<Rightarrow> choice_select_answer) \<Rightarrow>
   llm_rerank \<Rightarrow> node_with_score list \<Rightarrow> query_bundle \<Rightarrow>
   choice_select_request list \<times> (error + node_with_score list)" where
  "LLMRerank_run policy predict reranker nodes query_bundle =
     (case rerank_batches policy (predict (llm (rerank_service_context reranker)))
             (choice_select_prompt reranker) (query_str query_bundle)
             (batches (nat (choice_batch_size reranker)) (map node nodes)) ([], []) of
        (issued, Inl e) \<Rightarrow> (issued, Inl e)
      | (issued, Inr merged) \<Rightarrow>
          (issued, Inr (take (nat (top_n reranker)) (by_descending_score merged))))"

text \<open>
  Modelled from the spec: what \<open>LLMRerank.postprocess_nodes\<close> returns to its caller,
  the list or the error.
\<close>

definition LLMRerank_postprocess_nodes ::
  "malformed_policy \<Rightarrow> (bedrock_llm \<Rightarrow> choice_select_request \<Rightarrow> choice_select_answer) \<Rightarrow>
   llm_rerank \<Rightarrow> node_with_score list \<Rightarrow> query_bundle \<Rightarrow> error + node_with_score list" where
  "LLMRerank_postprocess_nodes policy predict reranker nodes query_bundle =
     snd (LLMRerank_run policy predict reranker nodes query_bundle)"

section \<open>Example inputs\<close>

text \<open>
  A small index whose embeddings are numbers, compared with the query's embedding by
  taking the chunk's number as the similarity; an embedding service that is
  reachable; hosted models with fixed answers; and seven scored candidates.
\<close>

definition example_index :: "real vector_index" where
  "example_index =
     [(\<lparr>node_id = ''c'', get_text = ''Alexa''\<rparr>, 1 / 5),
      (\<lparr>node_id = ''a'', get_text = ''AWS''\<rparr>, 9 / 10),
      (\<lparr>node_id = ''b'', get_text = ''Prime''\<rparr>, 1 / 2)]"

definition example_embed_query :: "string \<Rightarrow> real option" where
  "example_embed_query q = Some 0"

definition example_similarity :: "real \<Rightarrow> real \<Rightarrow> real" where
  "example_similarity q e = e"

definition predict_second :: "bedrock_llm \<Rightarrow> choice_select_request \<Rightarrow> choice_select_answer" where
  "predict_second m request = [(2, 8)]"

definition predict_nothing :: "bedrock_llm \<Rightarrow> choice_select_request \<Rightarrow> choice_select_answer" where
  "predict_nothing m request = []"


definition predict_first :: "bedrock_llm \<Rightarrow> choice_select_request \<Rightarrow> choice_select_answer" where
  "predict_first m request = [(1, 7)]"

definition predict_twice :: "bedrock_llm \<Rightarrow> choice_select_request \<Rightarrow> choice_select_answer" where
  "predict_twice m request = [(1, 7), (1, 3)]"

definition predict_by_size :: "bedrock_llm \<Rightarrow> choice_select_request \<Rightarrow> choice_select_answer" where
  "predict_by_size m request =
     (case request of (template, batch, q) \<Rightarrow>
        if length batch = 5 then [(2, 4), (5, 9)] else [(1, 7)])"

definition example_node :: "string \<Rightarrow> text_node" where
  "example_node i = \<lparr>node_id = i, get_text = ''chunk '' @ i\<rparr>"

definition example_candidates :: "node_with_score list" where
  "example_candidates =
     map (\<lambda>i. \<lparr>node = example_node i, score = 1 / 2\<rparr>)
       [''1'', ''2'', ''3'', ''4'', ''5'', ''6'', ''7'']"

section \<open>Properties of the trim step\<close>

lemma range_py_nonpos: "n \<le> 0 \<Longrightarrow> range_py n = []"
  by (simp add: range_py_def)

lemma range_py_nat: "range_py (int m) = map int [0..<m]"
proof (induction m)
  case 0
  show ?case by (simp add: range_py_def)
next
  case (Suc m)
  have "[0..int (Suc m) - 1] = [0..int m - 1] @ [int m]"
    using upto_rec2 [of 0 "int m"] by simp
  with Suc show ?case by (simp add: range_py_def)
qed

lemma pages_getitem_in_range:
  "i < length pages \<Longrightarrow> pages_getitem pages (int i) = Inr (pages ! i)"
  by (simp add: pages_getitem_def Let_def)

lemma copy_pages_prefix:
  "m \<le> length pages \<Longrightarrow>
   copy_pages pages (map int [j..<m]) (take j pages) = Inr (take (max j m) pages)"
proof (induction "m - j" arbitrary: j)
  case 0
  then show ?case by (simp add: max_def)
next
  case (Suc d)
  then have lt: "j < m" and jl: "j < length pages" by simp_all
  have step: "add_page (take j pages) (pages ! j) = take (Suc j) pages"
    using jl by (simp add: add_page_def take_Suc_conv_app_nth)
  have "d = m - Suc j" using Suc.hyps(2) by simp
  from Suc.hyps(1) [OF this Suc.prems]
  have ih: "copy_pages pages (map int [Suc j..<m]) (take (Suc j) pages)
            = Inr (take (max (Suc j) m) pages)" .
  have "[j..<m] = j # [Suc j..<m]" using lt by (simp add: upt_conv_Cons)
  then show ?case
    using ih lt jl by (simp add: pages_getitem_in_range step max_def)
qed

lemma trim_pages_take: "trim_pages pages = Inr (take (length pages - 3) pages)"
proof (cases "3 \<le> length pages")
  case True
  then have e: "int (length pages) - 3 = int (length pages - 3)" by linarith
  have "trim_pagenums pages = map int [0..<length pages - 3]"
    unfolding trim_pagenums_def e by (rule range_py_nat)
  then show ?thesis
    using copy_pages_prefix [of "length pages - 3" pages 0]
    by (simp add: trim_pages_def)
next
  case False
  then have "trim_pagenums pages = []"
    by (simp add: trim_pagenums_def range_py_nonpos)
  with False show ?thesis by (simp add: trim_pages_def)
qed

lemma trim_file_take:
  "fs local_pdf = Some pages \<Longrightarrow>
   trim_file fs local_pdf = Inr (fs(local_pdf \<mapsto> take (length pages - 3) pages))"
  by (simp add: trim_file_def trim_pages_take)

lemma take_drop3_again:
  "take (length (take (length pages - 3) pages) - 3 * k) (take (length pages - 3) pages)
   = take (length pages - 3 * Suc k) pages"
proof -
  have "min (length pages - 3 - 3 * k) (length pages - 3) = length pages - 3 * Suc k"
    by simp
  then show ?thesis by (simp only: take_take length_take min.idem min_absorb2 diff_le_self)
qed

lemma trim_times_take:
  "fs local_pdf = Some pages \<Longrightarrow>
   trim_times k fs local_pdf = Inr (fs(local_pdf \<mapsto> take (length pages - 3 * k) pages))"
proof (induction k arbitrary: fs pages)
  case 0
  then show ?case by (simp add: map_upd_triv)
next
  case (Suc k)
  let ?pages = "take (length pages - 3) pages"
  let ?fs = "fs(local_pdf \<mapsto> ?pages)"
  have step: "trim_file fs local_pdf = Inr ?fs"
    using Suc.prems by (rule trim_file_take)
  have "?fs local_pdf = Some ?pages" by simp
  from Suc.IH [of ?fs ?pages, OF this]
  have "trim_times k ?fs local_pdf
        = Inr (?fs(local_pdf \<mapsto> take (length ?pages - 3 * k) ?pages))" .
  then have "trim_times k ?fs local_pdf
        = Inr (fs(local_pdf \<mapsto> take (length pages - 3 * Suc k) pages))"
    by (simp only: take_drop3_again fun_upd_upd)
  with step show ?case by (simp only: trim_times.simps sum.case)
qed

lemma trim_cell_result:
  "distinct local_pdfs \<Longrightarrow> set local_pdfs \<subseteq> dom fs \<Longrightarrow>
   trim_cell fs local_pdfs =
     Inr (\<lambda>p. if p \<in> set local_pdfs
               then map_option (\<lambda>pages. take (length pages - 3) pages) (fs p)
               else fs p)"
proof (induction local_pdfs arbitrary: fs)
  case Nil
  show ?case by simp
next
  case (Cons local_pdf rest)
  from Cons.prems obtain pages where pg: "fs local_pdf = Some pages" by auto
  let ?fs = "fs(local_pdf \<mapsto> take (length pages - 3) pages)"
  have step: "trim_file fs local_pdf = Inr ?fs" using pg by (rule trim_file_take)
  have d: "distinct rest" and notin: "local_pdf \<notin> set rest" using Cons.prems by simp_all
  have sub: "set rest \<subseteq> dom ?fs" using Cons.prems by auto
  have "trim_cell ?fs rest =
     Inr (\<lambda>p. if p \<in> set rest
               then map_option (\<lambda>pages. take (length pages - 3) pages) (?fs p)
               else ?fs p)"
    using d sub by (rule Cons.IH)
  moreover have "(\<lambda>p. if p \<in> set rest
               then map_option (\<lambda>pages. take (length pages - 3) pages) (?fs p)
               else ?fs p)
     = (\<lambda>p. if p \<in> set (local_pdf # rest)
               then map_option (\<lambda>pages. take (length pages - 3) pages) (fs p)
               else fs p)"
    using notin pg by (auto simp: fun_eq_iff)
  ultimately show ?case using step by (simp only: trim_cell.simps sum.case)
qed

section \<open>Properties of the retriever and the reranker\<close>

subsection \<open>Sorting by descending score\<close>

lemma by_descending_score_sorted:
  "sorted_wrt (\<lambda>a b. score b \<le> score a) (by_descending_score ns)"
proof -
  have "sorted (map (\<lambda>x. - score x) (sort_key (\<lambda>x. - score x) ns))"
    by (rule sorted_sort_key)
  then have "sorted_wrt (\<lambda>a b. - score a \<le> - score b) (sort_key (\<lambda>x. - score x) ns)"
    by (simp only: sorted_map)
  then show ?thesis by (simp add: by_descending_score_def)
qed

lemma by_descending_score_length: "length (by_descending_score ns) = length ns"
  by (simp add: by_descending_score_def)

lemma by_descending_score_set: "set (by_descending_score ns) = set ns"
  by (simp add: by_descending_score_def)

lemma top_sorted:
  "sorted_wrt (\<lambda>a b. score b \<le> score a) (take m (by_descending_score ns))"
  using by_descending_score_sorted by (rule sorted_wrt_take)

lemma top_length: "length (take m (by_descending_score ns)) = min m (length ns)"
  by (simp add: by_descending_score_length min.commute)

lemma top_set: "set (take m (by_descending_score ns)) \<subseteq> set ns"
  using set_take_subset [of m "by_descending_score ns"]
  by (simp only: by_descending_score_set)

subsection \<open>Vector retriever\<close>

lemma retrieve_Inr:
  assumes "VectorIndexRetriever_retrieve embed_query similarity retriever qb = Inr ns"
  shows "length ns \<le> nat (similarity_top_k retriever)"
    and "length ns \<le> length (retriever_index retriever)"
    and "sorted_wrt (\<lambda>a b. score b \<le> score a) ns"
    and "node ` set ns \<subseteq> fst ` set (retriever_index retriever)"
proof -
  from assms obtain e where
    ns: "ns = take (nat (similarity_top_k retriever))
                (by_descending_score (score_nodes similarity e (retriever_index retriever)))"
    by (auto simp: VectorIndexRetriever_retrieve_def split: if_splits option.splits)
  show "length ns \<le> nat (similarity_top_k retriever)"
    unfolding ns by simp
  show "length ns \<le> length (retriever_index retriever)"
    unfolding ns by (simp add: by_descending_score_length score_nodes_def)
  show "sorted_wrt (\<lambda>a b. score b \<le> score a) ns"
    unfolding ns by (rule top_sorted)
  have "set ns \<subseteq> set (score_nodes similarity e (retriever_index retriever))"
    unfolding ns by (rule top_set)
  then show "node ` set ns \<subseteq> fst ` set (retriever_index retriever)"
    by (force simp: score_nodes_def)
qed

lemma retrieve_returns:
  "retriever_index retriever \<noteq> [] \<Longrightarrow> embed_query (query_str qb) = Some e \<Longrightarrow>
   \<exists>ns. VectorIndexRetriever_retrieve embed_query similarity retriever qb = Inr ns"
  by (simp add: VectorIndexRetriever_retrieve_def)

subsection \<open>Batches\<close>

lemma concat_batches_upto:
  "concat (map (\<lambda>i. take b (drop (i * b) xs)) [0..<k]) = take (k * b) xs"
proof (induction k)
  case 0
  show ?case by simp
next
  case (Suc k)
  have "take (k * b + b) xs = take (k * b) xs @ take b (drop (k * b) xs)"
    by (rule take_add)
  with Suc show ?case by (simp add: add.commute)
qed

lemma batches_cover:
  assumes "0 < b"
  shows "length xs \<le> (length xs + b - 1) div b * b"
proof -
  let ?m = "length xs + b - 1"
  have "?m div b * b + ?m mod b = ?m" by simp
  moreover have "?m mod b < b" using assms by simp
  ultimately show ?thesis by linarith
qed

lemma batches_concat: "0 < b \<Longrightarrow> concat (batches b xs) = xs"
  using batches_cover [of b xs]
  by (simp add: batches_def concat_batches_upto)

lemma batches_length: "length (batches b xs) = (length xs + b - 1) div b"
  by (simp add: batches_def)

lemma batches_nth:
  "i < length (batches b xs) \<Longrightarrow> batches b xs ! i = take b (drop (i * b) xs)"
  by (simp add: batches_def)

lemma batches_start_inside:
  assumes "0 < b" and "i < (length xs + b - 1) div b"
  shows "i * b < length xs"
proof -
  let ?m = "length xs + b - 1"
  have "Suc i \<le> ?m div b" using assms(2) by simp
  then have "Suc i * b \<le> ?m div b * b" by (rule mult_le_mono1)
  also have "?m div b * b \<le> ?m" by simp
  finally have "i * b + b \<le> length xs + b - 1" by (simp add: add.commute)
  with assms(1) show ?thesis by linarith
qed

lemma batches_full_before_last:
  assumes "0 < b" and "Suc i < (length xs + b - 1) div b"
  shows "i * b + b \<le> length xs"
proof -
  have "Suc i * b < length xs" using assms by (rule batches_start_inside)
  then show ?thesis by simp
qed

lemma batches_sizes:
  assumes "0 < b" and "i < length (batches b xs)"
  shows "0 < length (batches b xs ! i)" and "length (batches b xs ! i) \<le> b"
    and "Suc i < length (batches b xs) \<Longrightarrow> length (batches b xs ! i) = b"
proof -
  have i: "i < (length xs + b - 1) div b" using assms(2) by (simp add: batches_length)
  have inside: "i * b < length xs" using assms(1) i by (rule batches_start_inside)
  have nth: "batches b xs ! i = take b (drop (i * b) xs)" using assms(2) by (rule batches_nth)
  show "0 < length (batches b xs ! i)" using inside assms(1) by (simp add: nth)
  show "length (batches b xs ! i) \<le> b" by (simp add: nth)
  show "length (batches b xs ! i) = b" if "Suc i < length (batches b xs)"
  proof -
    have "Suc i < (length xs + b - 1) div b" using that by (simp add: batches_length)
    with assms(1) have "i * b + b \<le> length xs" by (rule batches_full_before_last)
    then show ?thesis by (simp add: nth)
  qed
qed

subsection \<open>Reading one answer\<close>

lemma select_lines_Inr:
  "select_lines policy batch answer = Inr chosen \<Longrightarrow>
   chosen = map (\<lambda>(d, r). \<lparr>node = batch ! nat (d - 1), score = of_int r\<rparr>)
              (filter (\<lambda>(d, r). 1 \<le> d \<and> d \<le> int (length batch)) answer)"
proof (induction answer arbitrary: chosen)
  case Nil
  then show ?case by simp
next
  case (Cons line rest)
  obtain d r where line: "line = (d, r)" by (cases line)
  show ?case
  proof (cases "1 \<le> d \<and> d \<le> int (length batch)")
    case True
    with Cons.prems line obtain tl where
      tl: "select_lines policy batch rest = Inr tl"
      and chosen: "chosen = \<lparr>node = batch ! nat (d - 1), score = of_int r\<rparr> # tl"
      by (auto split: sum.splits)
    from Cons.IH [OF tl] chosen True line show ?thesis by simp
  next
    case False
    with Cons.prems line have "select_lines policy batch rest = Inr chosen"
      by (auto split: malformed_policy.splits)
    from Cons.IH [OF this] False line show ?thesis by simp
  qed
qed

lemma select_lines_scores:
  assumes "select_lines policy batch answer = Inr chosen" and "x \<in> set chosen"
  shows "\<exists>d r. (d, r) \<in> set answer \<and> 1 \<le> d \<and> d \<le> int (length batch) \<and>
               node x = batch ! nat (d - 1) \<and> score x = of_int r"
proof -
  from assms(2) obtain d r where
    "(d, r) \<in> set (filter (\<lambda>(d, r). 1 \<le> d \<and> d \<le> int (length batch)) answer)"
    and "x = \<lparr>node = batch ! nat (d - 1), score = of_int r\<rparr>"
    unfolding select_lines_Inr [OF assms(1)] by auto
  then show ?thesis by auto
qed

lemma select_lines_nodes:
  assumes "select_lines policy batch answer = Inr chosen"
  shows "node ` set chosen \<subseteq> set batch"
proof
  fix n assume "n \<in> node ` set chosen"
  then obtain x where x: "x \<in> set chosen" and n: "n = node x" by auto
  from select_lines_scores [OF assms x] obtain d where
    "1 \<le> d" "d \<le> int (length batch)" "node x = batch ! nat (d - 1)" by blast
  then show "n \<in> set batch" unfolding n by simp
qed

lemma select_lines_length:
  assumes "select_lines policy batch answer = Inr chosen" and "distinct (map fst answer)"
  shows "length chosen \<le> length batch"
proof -
  let ?lines = "filter (\<lambda>(d, r). 1 \<le> d \<and> d \<le> int (length batch)) answer"
  have d: "distinct (map fst ?lines)" using assms(2) by (rule distinct_map_filter)
  have r: "set (map fst ?lines) \<subseteq> {1..int (length batch)}" by auto
  have "length chosen = length (map fst ?lines)"
    unfolding select_lines_Inr [OF assms(1)] by simp
  also have "\<dots> = card (set (map fst ?lines))" using d by (simp only: distinct_card)
  also have "\<dots> \<le> card {1..int (length batch)}" using r by (intro card_mono) auto
  also have "\<dots> = length batch" by simp
  finally show ?thesis .
qed

lemma select_lines_skip_returns:
  "\<exists>chosen. select_lines SkipLine batch answer = Inr chosen"
proof (induction answer)
  case Nil
  show ?case by simp
next
  case (Cons line rest)
  obtain d r where line: "line = (d, r)" by (cases line)
  from Cons.IH obtain c where "select_lines SkipLine batch rest = Inr c" by blast
  then show ?case by (simp add: line)
qed

subsection \<open>The loop over the batches\<close>

lemma rerank_batches_Inr:
  "rerank_batches policy ask template q bs (issued, merged) = (issued', Inr merged') \<Longrightarrow>
   issued' = issued @ map (\<lambda>b. (template, b, q)) bs \<and>
   (\<exists>outs. list_all2 (\<lambda>b out. select_lines policy b (ask (template, b, q)) = Inr out) bs outs \<and>
           merged' = merged @ concat outs)"
proof (induction bs arbitrary: issued merged)
  case Nil
  then show ?case by simp
next
  case (Cons b bs)
  show ?case
  proof (cases "select_lines policy b (ask (template, b, q))")
    case (Inl e)
    with Cons.prems show ?thesis by simp
  next
    case (Inr chosen)
    with Cons.prems have
      "rerank_batches policy ask template q bs (issued @ [(template, b, q)], merged @ chosen)
       = (issued', Inr merged')"
      by simp
    from Cons.IH [OF this] obtain outs where
      i: "issued' = (issued @ [(template, b, q)]) @ map (\<lambda>b. (template, b, q)) bs"
      and a: "list_all2 (\<lambda>b out. select_lines policy b (ask (template, b, q)) = Inr out) bs outs"
      and m: "merged' = (merged @ chosen) @ concat outs"
      by blast
    have "list_all2 (\<lambda>b out. select_lines policy b (ask (template, b, q)) = Inr out)
            (b # bs) (chosen # outs)"
      using Inr a by simp
    moreover have "merged' = merged @ concat (chosen # outs)" using m by simp
    moreover have "issued' = issued @ map (\<lambda>b. (template, b, q)) (b # bs)" using i by simp
    ultimately show ?thesis by blast
  qed
qed

lemma rerank_batches_skip_returns:
  "\<exists>issued' merged'.
     rerank_batches SkipLine ask template q bs (issued, merged) = (issued', Inr merged')"
proof (induction bs arbitrary: issued merged)
  case Nil
  show ?case by simp
next
  case (Cons b bs)
  obtain chosen where c: "select_lines SkipLine b (ask (template, b, q)) = Inr chosen"
    using select_lines_skip_returns by blast
  from Cons.IH [of "issued @ [(template, b, q)]" "merged @ chosen"]
  show ?case by (simp add: c)
qed

lemma chosen_nodes:
  "list_all2 (\<lambda>b out. select_lines policy b (answer b) = Inr out) bs outs \<Longrightarrow>
   node ` set (concat outs) \<subseteq> set (concat bs)"
proof (induction rule: list_all2_induct)
  case Nil
  show ?case by simp
next
  case (Cons b bs out outs)
  have n1: "node ` set out \<subseteq> set b" using Cons.hyps(1) by (rule select_lines_nodes)
  have "node ` set (concat (out # outs)) = node ` set out \<union> node ` set (concat outs)"
    by (simp only: concat.simps set_append image_Un)
  moreover have "set (concat (b # bs)) = set b \<union> set (concat bs)"
    by (simp only: concat.simps set_append)
  ultimately show ?case using n1 Cons.IH by blast
qed

lemma chosen_length:
  "list_all2 (\<lambda>b out. select_lines policy b (answer b) = Inr out) bs outs \<Longrightarrow>
   (\<And>b. b \<in> set bs \<Longrightarrow> distinct (map fst (answer b))) \<Longrightarrow>
   length (concat outs) \<le> length (concat bs)"
proof (induction rule: list_all2_induct)
  case Nil
  show ?case by simp
next
  case (Cons b bs out outs)
  have "distinct (map fst (answer b))" using Cons.prems by simp
  with Cons.hyps(1) have l1: "length out \<le> length b" by (rule select_lines_length)
  have l2: "length (concat outs) \<le> length (concat bs)"
    using Cons.prems by (intro Cons.IH) simp
  from l1 l2 show ?case by simp
qed


lemma LLMRerank_run_Inr:
  assumes "LLMRerank_run policy predict reranker cands qb = (issued, Inr out)"
  shows "\<exists>outs.
     issued = map (\<lambda>b. (choice_select_prompt reranker, b, query_str qb))
                (batches (nat (choice_batch_size reranker)) (map node cands)) \<and>
     list_all2 (\<lambda>b chosen. select_lines policy b
                  (predict (llm (rerank_service_context reranker))
                     (choice_select_prompt reranker, b, query_str qb)) = Inr chosen)
       (batches (nat (choice_batch_size reranker)) (map node cands)) outs \<and>
     out = take (nat (top_n reranker)) (by_descending_score (concat outs))"
proof -
  let ?bs = "batches (nat (choice_batch_size reranker)) (map node cands)"
  let ?ask = "predict (llm (rerank_service_context reranker))"
  obtain i r where run:
    "rerank_batches policy ?ask (choice_select_prompt reranker) (query_str qb) ?bs ([], []) = (i, r)"
    by (cases "rerank_batches policy ?ask (choice_select_prompt reranker) (query_str qb) ?bs ([], [])")
  from assms run obtain merged where r: "r = Inr merged" and i: "i = issued"
    and out: "out = take (nat (top_n reranker)) (by_descending_score merged)"
    by (cases r) (auto simp: LLMRerank_run_def)
  from run r have
    "rerank_batches policy ?ask (choice_select_prompt reranker) (query_str qb) ?bs ([], [])
     = (i, Inr merged)" by simp
  from rerank_batches_Inr [OF this] obtain outs where
    "i = [] @ map (\<lambda>b. (choice_select_prompt reranker, b, query_str qb)) ?bs"
    "list_all2 (\<lambda>b chosen. select_lines policy b
        (?ask (choice_select_prompt reranker, b, query_str qb)) = Inr chosen) ?bs outs"
    "merged = [] @ concat outs"
    by blast
  with i out show ?thesis by (intro exI [of _ outs]) simp
qed

lemma LLMRerank_run_skip_returns:
  "\<exists>issued out. LLMRerank_run SkipLine predict reranker cands qb = (issued, Inr out)"
proof -
  let ?bs = "batches (nat (choice_batch_size reranker)) (map node cands)"
  obtain i m where
    "rerank_batches SkipLine (predict (llm (rerank_service_context reranker)))
       (choice_select_prompt reranker) (query_str qb) ?bs ([], []) = (i, Inr m)"
    using rerank_batches_skip_returns by blast
  then show ?thesis by (simp add: LLMRerank_run_def)
qed

lemma postprocess_nodes_Inr:
  assumes "LLMRerank_postprocess_nodes policy predict reranker cands qb = Inr out"
  shows "\<exists>issued. LLMRerank_run policy predict reranker cands qb = (issued, Inr out)"
  using assms
  by (cases "LLMRerank_run policy predict reranker cands qb")
     (simp add: LLMRerank_postprocess_nodes_def)

text \<open>What a reranked list is, whenever the reranker returns one.\<close>

lemma postprocess_nodes_bounds:
  assumes "LLMRerank_postprocess_nodes policy predict reranker cands qb = Inr out"
    and "0 < choice_batch_size reranker"
  shows "node ` set out \<subseteq> node ` set cands"
    and "length out \<le> nat (top_n reranker)"
    and "sorted_wrt (\<lambda>a b. score b \<le> score a) out"
proof -
  let ?bs = "batches (nat (choice_batch_size reranker)) (map node cands)"
  from postprocess_nodes_Inr [OF assms(1)] obtain issued where
    "LLMRerank_run policy predict reranker cands qb = (issued, Inr out)" by blast
  from LLMRerank_run_Inr [OF this] obtain outs where
    a: "list_all2 (\<lambda>b chosen. select_lines policy b
          (predict (llm (rerank_service_context reranker))
             (choice_select_prompt reranker, b, query_str qb)) = Inr chosen) ?bs outs"
    and out: "out = take (nat (top_n reranker)) (by_descending_score (concat outs))"
    by blast
  have cat: "concat ?bs = map node cands"
    using assms(2) by (simp add: batches_concat)
  from chosen_nodes [of policy
      "\<lambda>b. predict (llm (rerank_service_context reranker))
         (choice_select_prompt reranker, b, query_str qb)" ?bs outs, OF a]
  have n: "node ` set (concat outs) \<subseteq> node ` set cands"
    by (simp only: cat set_map)
  have "set out \<subseteq> set (concat outs)" unfolding out by (rule top_set)
  with n show "node ` set out \<subseteq> node ` set cands" by blast
  show "length out \<le> nat (top_n reranker)" unfolding out by simp
  show "sorted_wrt (\<lambda>a b. score b \<le> score a) out" unfolding out by (rule top_sorted)
qed

subsection \<open>The function with the reranker switched on or off\<close>

lemma get_retrieved_nodes_claude_off:
  "get_retrieved_nodes_claude retrieve postprocess_nodes index sc q k n False
   = retrieve (retriever_claude index k) (QueryBundle q)"
  by (simp add: get_retrieved_nodes_claude_def Let_def split: sum.splits)

lemma get_retrieved_nodes_titan_off:
  "get_retrieved_nodes_titan retrieve postprocess_nodes index sc q k n False
   = retrieve (retriever_titan index k) (QueryBundle q)"
  by (simp add: get_retrieved_nodes_titan_def Let_def split: sum.splits)

lemma get_retrieved_nodes_claude_on:
  "get_retrieved_nodes_claude retrieve postprocess_nodes index sc q k n True =
     (case retrieve (retriever_claude index k) (QueryBundle q) of
        Inl e \<Rightarrow> Inl e
      | Inr cands \<Rightarrow> postprocess_nodes (reranker_claude sc n) cands (QueryBundle q))"
  by (simp add: get_retrieved_nodes_claude_def Let_def split: sum.splits)

lemma get_retrieved_nodes_titan_on:
  "get_retrieved_nodes_titan retrieve postprocess_nodes index sc q k n True =
     (case retrieve (retriever_titan index k) (QueryBundle q) of
        Inl e \<Rightarrow> Inl e
      | Inr cands \<Rightarrow> postprocess_nodes (reranker_titan sc n) cands (QueryBundle q))"
  by (simp add: get_retrieved_nodes_titan_def Let_def split: sum.splits)

lemma reranker_batch_size:
  "choice_batch_size (reranker_claude sc n) = 5" "choice_batch_size (reranker_titan sc n) = 5"
  by (simp_all add: reranker_claude_def reranker_titan_def)

lemma reranker_top_n:
  "top_n (reranker_claude sc n) = n" "top_n (reranker_titan sc n) = n"
  by (simp_all add: reranker_claude_def reranker_titan_def)

subsection \<open>The reranker as the notebooks configure it\<close>

lemma run_batches_of_five:
  assumes "LLMRerank_run policy predict reranker cands qb = (issued, Inr out)"
    and "choice_batch_size reranker = 5"
  shows "\<exists>outs.
     issued = map (\<lambda>b. (choice_select_prompt reranker, b, query_str qb))
                (batches 5 (map node cands)) \<and>
     list_all2 (\<lambda>b chosen. select_lines policy b
                  (predict (llm (rerank_service_context reranker))
                     (choice_select_prompt reranker, b, query_str qb)) = Inr chosen)
       (batches 5 (map node cands)) outs \<and>
     out = take (nat (top_n reranker)) (by_descending_score (concat outs))"
proof -
  have "nat (choice_batch_size reranker) = 5" using assms(2) by simp
  with LLMRerank_run_Inr [OF assms(1)] show ?thesis by simp
qed

lemma five_batches:
  "concat (batches 5 xs) = xs"
  "length (batches 5 xs) = (length xs + 4) div 5"
  "i < length (batches 5 xs) \<Longrightarrow> 0 < length (batches 5 xs ! i)"
  "i < length (batches 5 xs) \<Longrightarrow> length (batches 5 xs ! i) \<le> 5"
  "Suc i < length (batches 5 xs) \<Longrightarrow> length (batches 5 xs ! i) = 5"
proof -
  show "concat (batches 5 xs) = xs" by (simp add: batches_concat)
  show "length (batches 5 xs) = (length xs + 4) div 5" by (simp add: batches_length)
  show "0 < length (batches 5 xs ! i)" if "i < length (batches 5 xs)"
    using batches_sizes(1) [of 5 i xs] that by simp
  show "length (batches 5 xs ! i) \<le> 5" if "i < length (batches 5 xs)"
    using batches_sizes(2) [of 5 i xs] that by simp
  show "length (batches 5 xs ! i) = 5" if "Suc i < length (batches 5 xs)"
    using batches_sizes(3) [of 5 i xs] that by simp
qed


section \<open>Claims about the trim step\<close>

text \<open>
  C7, as amended. For every directory and every list of distinct existing paths, the
  trim cell ends without an error and rewrites each listed file to the first
  \<open>max 0 (n - 3)\<close> of its \<open>n\<close> pages, in their order and unchanged, leaving every
  other file as it was. So three trailing pages are removed from a file of three or
  more pages, and all of them from a shorter one.
\<close>

theorem trim_cell_keeps_leading_pages:
  assumes "distinct local_pdfs" and "set local_pdfs \<subseteq> dom fs"
  shows "\<exists>fs'. trim_cell fs local_pdfs = Inr fs' \<and>
           (\<forall>p. fs' p = (if p \<in> set local_pdfs
                          then map_option (\<lambda>pages. take (length pages - 3) pages) (fs p)
                          else fs p)) \<and>
           (\<forall>p pages. fs p = Some pages \<longrightarrow>
              int (length (take (length pages - 3) pages)) = max 0 (int (length pages) - 3))"
proof -
  have "\<forall>p pages. fs p = Some pages \<longrightarrow>
          int (length (take (length pages - 3) pages)) = max 0 (int (length pages) - 3)"
    by auto
  then show ?thesis
    using trim_cell_result [OF assms] by simp
qed

theorem trim_cell_keeps_leading_pages_witness:
  "\<exists>fs'. trim_cell [''a.pdf'' \<mapsto> [''p1'', ''p2'', ''p3'', ''p4'', ''p5''], ''b.txt'' \<mapsto> [''q'']]
            [''a.pdf''] = Inr fs' \<and>
         fs' ''a.pdf'' = Some [''p1'', ''p2''] \<and> fs' ''b.txt'' = Some [''q'']"
proof -
  let ?fs = "[''a.pdf'' \<mapsto> [''p1'', ''p2'', ''p3'', ''p4'', ''p5''], ''b.txt'' \<mapsto> [''q'']]"
  have d: "distinct [''a.pdf'']" by simp
  have s: "set [''a.pdf''] \<subseteq> dom ?fs" by simp
  from trim_cell_keeps_leading_pages [OF d s]
  obtain fs' where r: "trim_cell ?fs [''a.pdf''] = Inr fs'"
    and v: "\<forall>p. fs' p = (if p \<in> set [''a.pdf'']
                          then map_option (\<lambda>pages. take (length pages - 3) pages) (?fs p)
                          else ?fs p)"
    by blast
  from v have "fs' ''a.pdf'' = Some [''p1'', ''p2'']" by simp
  moreover from v have "fs' ''b.txt'' = Some [''q'']" by simp
  ultimately show ?thesis using r by blast
qed

text \<open>
  C7 as stated fails on a file of two pages: the rewritten file has no page, which is
  not \<open>2 - 3\<close> pages, and two pages were removed, not three.
\<close>

theorem trim_two_pages_counterexample:
  "\<not> (case trim_pages [''p1'', ''p2''] of
         Inl e \<Rightarrow> False
       | Inr pdf_writer \<Rightarrow> int (length pdf_writer) = int (length [''p1'', ''p2'']) - 3)"
  by (simp add: trim_pages_take)

text \<open>
  C8. For every file of three or fewer pages the inner loop has no page number to
  visit, and the step ends without an error, having overwritten the file with a PDF of
  no page.
\<close>

theorem trim_short_pdf_emptied:
  assumes "fs local_pdf = Some pages" and "length pages \<le> 3"
  shows "trim_pagenums pages = [] \<and> trim_file fs local_pdf = Inr (fs(local_pdf \<mapsto> []))"
proof -
  have "trim_pagenums pages = []"
    using assms(2) by (simp add: trim_pagenums_def range_py_nonpos)
  moreover have "trim_file fs local_pdf = Inr (fs(local_pdf \<mapsto> []))"
    using trim_file_take [of fs local_pdf pages, OF assms(1)] assms(2) by simp
  ultimately show ?thesis by simp
qed

theorem trim_short_pdf_emptied_witness:
  "trim_pagenums [''p1'', ''p2'', ''p3''] = [] \<and>
   trim_file [''a.pdf'' \<mapsto> [''p1'', ''p2'', ''p3'']] ''a.pdf'' = Inr [''a.pdf'' \<mapsto> []]"
proof -
  have a: "[''a.pdf'' \<mapsto> [''p1'', ''p2'', ''p3'']] ''a.pdf'' = Some [''p1'', ''p2'', ''p3'']"
    by simp
  have b: "length [''p1'', ''p2'', ''p3''] \<le> 3" by simp
  from trim_short_pdf_emptied [of "[''a.pdf'' \<mapsto> [''p1'', ''p2'', ''p3'']]" "''a.pdf''"
      "[''p1'', ''p2'', ''p3'']", OF a b]
  show ?thesis by simp
qed

text \<open>
  C9. The step overwrites the file in place, so \<open>k\<close> runs on a file of \<open>n\<close> pages
  leave its first \<open>max 0 (n - 3 k)\<close> pages; when the first run leaves a page (\<open>n > 3\<close>),
  the second run leaves strictly fewer pages than the first, so the step is not
  idempotent.
\<close>

theorem trim_not_idempotent:
  assumes "fs local_pdf = Some pages"
  shows "trim_times k fs local_pdf = Inr (fs(local_pdf \<mapsto> take (length pages - 3 * k) pages)) \<and>
         int (length (take (length pages - 3 * k) pages)) = max 0 (int (length pages) - 3 * int k) \<and>
         (3 < length pages \<longrightarrow>
            length (take (length pages - 3 * 2) pages) < length (take (length pages - 3 * 1) pages) \<and>
            trim_times 2 fs local_pdf \<noteq> trim_times 1 fs local_pdf)"
proof -
  have one: "trim_times k fs local_pdf = Inr (fs(local_pdf \<mapsto> take (length pages - 3 * k) pages))"
    using assms by (rule trim_times_take)
  have two: "int (length (take (length pages - 3 * k) pages)) = max 0 (int (length pages) - 3 * int k)"
    by auto
  have three: "trim_times 2 fs local_pdf \<noteq> trim_times 1 fs local_pdf" if "3 < length pages"
  proof
    assume "trim_times 2 fs local_pdf = trim_times 1 fs local_pdf"
    then have "fs(local_pdf \<mapsto> take (length pages - 3 * 2) pages)
               = fs(local_pdf \<mapsto> take (length pages - 3 * 1) pages)"
      by (simp only: trim_times_take [of fs local_pdf pages, OF assms] sum.inject)
    then have "take (length pages - 3 * 2) pages = take (length pages - 3 * 1) pages"
      by (metis map_upd_eqD1)
    then have "length (take (length pages - 3 * 2) pages) = length (take (length pages - 3 * 1) pages)"
      by simp
    with that show False by simp
  qed
  have four: "length (take (length pages - 3 * 2) pages) < length (take (length pages - 3 * 1) pages)"
    if "3 < length pages"
    using that by simp
  from one two three four show ?thesis by blast
qed

theorem trim_not_idempotent_witness:
  "trim_times 2 [''a.pdf'' \<mapsto> [''p1'', ''p2'', ''p3'', ''p4'', ''p5'', ''p6'', ''p7'']] ''a.pdf''
     = Inr [''a.pdf'' \<mapsto> [''p1'']] \<and>
   trim_times 2 [''a.pdf'' \<mapsto> [''p1'', ''p2'', ''p3'', ''p4'', ''p5'', ''p6'', ''p7'']] ''a.pdf''
     \<noteq> trim_times 1 [''a.pdf'' \<mapsto> [''p1'', ''p2'', ''p3'', ''p4'', ''p5'', ''p6'', ''p7'']] ''a.pdf''"
proof -
  let ?pages = "[''p1'', ''p2'', ''p3'', ''p4'', ''p5'', ''p6'', ''p7'']"
  have a: "[''a.pdf'' \<mapsto> ?pages] ''a.pdf'' = Some ?pages" by simp
  have b: "3 < length ?pages" by simp
  note t = trim_not_idempotent [of "[''a.pdf'' \<mapsto> ?pages]" "''a.pdf''" ?pages 2, OF a]
  have e: "[''a.pdf'' \<mapsto> ?pages, ''a.pdf'' \<mapsto> take (length ?pages - 3 * 2) ?pages]
           = [''a.pdf'' \<mapsto> [''p1'']]"
    by simp
  from t have "trim_times 2 [''a.pdf'' \<mapsto> ?pages] ''a.pdf''
      = Inr [''a.pdf'' \<mapsto> ?pages, ''a.pdf'' \<mapsto> take (length ?pages - 3 * 2) ?pages]"
    by (rule conjunct1)
  then have c1: "trim_times 2 [''a.pdf'' \<mapsto> ?pages] ''a.pdf'' = Inr [''a.pdf'' \<mapsto> [''p1'']]"
    by (simp only: e)
  from t b have c2: "trim_times 2 [''a.pdf'' \<mapsto> ?pages] ''a.pdf''
      \<noteq> trim_times 1 [''a.pdf'' \<mapsto> ?pages] ''a.pdf''"
    by blast
  from c1 c2 show ?thesis by (rule conjI)
qed

section \<open>Claims about the function, its configuration and the retrieval stage\<close>

text \<open>
  C10. With \<open>with_reranker=False\<close> the result of \<open>get_retrieved_nodes\<close> does not
  depend on \<open>reranker_top_n\<close>: in either notebook, two calls that differ in this
  argument only return the same list, which is the retriever's.
\<close>

theorem reranker_top_n_unused_without_reranker:
  "get_retrieved_nodes_claude retrieve postprocess_nodes index sc q k n1 False
     = get_retrieved_nodes_claude retrieve postprocess_nodes index sc q k n2 False \<and>
   get_retrieved_nodes_titan retrieve postprocess_nodes index sc q k n1 False
     = get_retrieved_nodes_titan retrieve postprocess_nodes index sc q k n2 False"
  by (simp only: get_retrieved_nodes_claude_off get_retrieved_nodes_titan_off)

text \<open>
  C6, as amended. The prompt template is a parameter of the reranker's configuration.
  The Claude notebook supplies its own template; the Titan notebook supplies none, so
  that the library's default is in force. Apart from the template, the function of
  the Claude notebook is that of the Titan notebook, and the two service contexts
  differ in the text-generation model only.
\<close>

theorem choice_select_prompt_is_the_difference:
  "reranker_claude sc n
     = (reranker_titan sc n)\<lparr>choice_select_prompt := Some claude_choice_select_prompt\<rparr> \<and>
   choice_select_prompt (reranker_titan sc n) = None \<and>
   choice_select_prompt (reranker_claude sc n) \<noteq> choice_select_prompt (reranker_titan sc n) \<and>
   get_retrieved_nodes_claude retrieve postprocess_nodes index sc q k n w
     = get_retrieved_nodes_titan
         (\<lambda>r. retrieve (r\<lparr>retriever_choice_select_prompt := Some claude_choice_select_prompt\<rparr>))
         (\<lambda>r. postprocess_nodes (r\<lparr>choice_select_prompt := Some claude_choice_select_prompt\<rparr>))
         index sc q k n w \<and>
   service_context_claude\<lparr>llm := llm_titan\<rparr> = service_context_titan \<and>
   llm_claude \<noteq> llm_titan"
proof -
  have r: "reranker_claude sc n
     = (reranker_titan sc n)\<lparr>choice_select_prompt := Some claude_choice_select_prompt\<rparr>"
    by (simp add: reranker_claude_def reranker_titan_def)
  have v: "retriever_claude index k
     = (retriever_titan index k)\<lparr>retriever_choice_select_prompt := Some claude_choice_select_prompt\<rparr>"
    by (simp add: retriever_claude_def retriever_titan_def)
  have t: "choice_select_prompt (reranker_titan sc n) = None"
    by (simp add: reranker_titan_def)
  have c: "choice_select_prompt (reranker_claude sc n) \<noteq> choice_select_prompt (reranker_titan sc n)"
    by (simp add: reranker_claude_def reranker_titan_def)
  have g: "get_retrieved_nodes_claude retrieve postprocess_nodes index sc q k n w
     = get_retrieved_nodes_titan
         (\<lambda>r. retrieve (r\<lparr>retriever_choice_select_prompt := Some claude_choice_select_prompt\<rparr>))
         (\<lambda>r. postprocess_nodes (r\<lparr>choice_select_prompt := Some claude_choice_select_prompt\<rparr>))
         index sc q k n w"
    by (simp only: get_retrieved_nodes_claude_def get_retrieved_nodes_titan_def r v Let_def)
  have s: "service_context_claude\<lparr>llm := llm_titan\<rparr> = service_context_titan"
    by (simp add: service_context_claude_def service_context_titan_def)
  have l: "llm_claude \<noteq> llm_titan"
    by (simp add: llm_claude_def llm_titan_def)
  from r t c g s l show ?thesis by blast
qed

text \<open>
  C6 as stated fails on the Titan notebook: it supplies no template of its own,
  neither to the reranker nor to the retriever, in its demonstration as in every call.
\<close>

theorem titan_supplies_no_template_counterexample:
  "choice_select_prompt (reranker_titan service_context_titan 3) = None \<and>
   retriever_choice_select_prompt (retriever_titan example_index 3) = None"
  by (simp add: reranker_titan_def retriever_titan_def)

text \<open>
  C2. For every requested count \<open>K \<ge> 0\<close> and every query, the vector retrieval stage,
  as \<open>get_retrieved_nodes\<close> invokes it with \<open>with_reranker=False\<close>, returns at most
  \<open>K\<close> scored chunks in non-increasing order of score; it does return a list when
  the index holds a chunk and the embedding service answers.
\<close>

theorem retrieval_at_most_k_descending:
  assumes "0 \<le> K"
  shows "(\<forall>ns. get_retrieved_nodes_claude (VectorIndexRetriever_retrieve embed_query similarity)
               postprocess_nodes index sc q K n False = Inr ns \<longrightarrow>
             int (length ns) \<le> K \<and> sorted_wrt (\<lambda>a b. score b \<le> score a) ns) \<and>
         (\<forall>ns. get_retrieved_nodes_titan (VectorIndexRetriever_retrieve embed_query similarity)
               postprocess_nodes index sc q K n False = Inr ns \<longrightarrow>
             int (length ns) \<le> K \<and> sorted_wrt (\<lambda>a b. score b \<le> score a) ns) \<and>
         (index \<noteq> [] \<and> embed_query q \<noteq> None \<longrightarrow>
            (\<exists>ns. get_retrieved_nodes_claude (VectorIndexRetriever_retrieve embed_query similarity)
               postprocess_nodes index sc q K n False = Inr ns) \<and>
            (\<exists>ns. get_retrieved_nodes_titan (VectorIndexRetriever_retrieve embed_query similarity)
               postprocess_nodes index sc q K n False = Inr ns))"
proof -
  have bound: "int (length ns) \<le> K \<and> sorted_wrt (\<lambda>a b. score b \<le> score a) ns"
    if "VectorIndexRetriever_retrieve embed_query similarity retriever (QueryBundle q) = Inr ns"
      and "similarity_top_k retriever = K" for retriever ns
  proof -
    have "length ns \<le> nat K" using retrieve_Inr(1) [OF that(1)] that(2) by simp
    then have "int (length ns) \<le> K" using assms by simp
    moreover have "sorted_wrt (\<lambda>a b. score b \<le> score a) ns" using that(1) by (rule retrieve_Inr(3))
    ultimately show ?thesis by simp
  qed
  have kc: "similarity_top_k (retriever_claude index K) = K" by (simp add: retriever_claude_def)
  have kt: "similarity_top_k (retriever_titan index K) = K" by (simp add: retriever_titan_def)
  have one: "\<forall>ns. get_retrieved_nodes_claude (VectorIndexRetriever_retrieve embed_query similarity)
               postprocess_nodes index sc q K n False = Inr ns \<longrightarrow>
             int (length ns) \<le> K \<and> sorted_wrt (\<lambda>a b. score b \<le> score a) ns"
    using bound [OF _ kc] by (simp only: get_retrieved_nodes_claude_off) blast
  have two: "\<forall>ns. get_retrieved_nodes_titan (VectorIndexRetriever_retrieve embed_query similarity)
               postprocess_nodes index sc q K n False = Inr ns \<longrightarrow>
             int (length ns) \<le> K \<and> sorted_wrt (\<lambda>a b. score b \<le> score a) ns"
    using bound [OF _ kt] by (simp only: get_retrieved_nodes_titan_off) blast
  have three: "(\<exists>ns. get_retrieved_nodes_claude (VectorIndexRetriever_retrieve embed_query similarity)
               postprocess_nodes index sc q K n False = Inr ns) \<and>
            (\<exists>ns. get_retrieved_nodes_titan (VectorIndexRetriever_retrieve embed_query similarity)
               postprocess_nodes index sc q K n False = Inr ns)"
    if "index \<noteq> []" and "embed_query q \<noteq> None"
  proof -
    from that(2) obtain e where e: "embed_query q = Some e" by auto
    have "\<exists>ns. VectorIndexRetriever_retrieve embed_query similarity (retriever_claude index K)
            (QueryBundle q) = Inr ns"
      using that(1) e
      by (intro retrieve_returns [of _ _ _ e]) (simp_all add: retriever_claude_def QueryBundle_def)
    moreover have "\<exists>ns. VectorIndexRetriever_retrieve embed_query similarity (retriever_titan index K)
            (QueryBundle q) = Inr ns"
      using that(1) e
      by (intro retrieve_returns [of _ _ _ e]) (simp_all add: retriever_titan_def QueryBundle_def)
    ultimately show ?thesis
      by (simp only: get_retrieved_nodes_claude_off get_retrieved_nodes_titan_off)
  qed
  from one two three show ?thesis by blast
qed

theorem retrieval_at_most_k_descending_witness:
  "get_retrieved_nodes_titan (VectorIndexRetriever_retrieve example_embed_query example_similarity)
     (LLMRerank_postprocess_nodes SkipLine predict_nothing) example_index service_context_titan
     ''How has AWS evolved?'' 2 3 False
   = Inr [\<lparr>node = \<lparr>node_id = ''a'', get_text = ''AWS''\<rparr>, score = 9 / 10\<rparr>,
          \<lparr>node = \<lparr>node_id = ''b'', get_text = ''Prime''\<rparr>, score = 1 / 2\<rparr>] \<and>
   int (length [\<lparr>node = \<lparr>node_id = ''a'', get_text = ''AWS''\<rparr>, score = 9 / 10\<rparr>,
          \<lparr>node = \<lparr>node_id = ''b'', get_text = ''Prime''\<rparr>, score = 1 / 2\<rparr>]) \<le> 2 \<and>
   sorted_wrt (\<lambda>a b. score b \<le> score a)
     [\<lparr>node = \<lparr>node_id = ''a'', get_text = ''AWS''\<rparr>, score = 9 / 10\<rparr>,
      \<lparr>node = \<lparr>node_id = ''b'', get_text = ''Prime''\<rparr>, score = 1 / 2\<rparr>]"
proof -
  let ?ns = "[\<lparr>node = \<lparr>node_id = ''a'', get_text = ''AWS''\<rparr>, score = 9 / 10\<rparr>,
              \<lparr>node = \<lparr>node_id = ''b'', get_text = ''Prime''\<rparr>, score = 1 / 2\<rparr>]"
  have ev: "get_retrieved_nodes_titan
       (VectorIndexRetriever_retrieve example_embed_query example_similarity)
       (LLMRerank_postprocess_nodes SkipLine predict_nothing) example_index service_context_titan
       ''How has AWS evolved?'' 2 3 False = Inr ?ns"
    by (simp add: get_retrieved_nodes_titan_off VectorIndexRetriever_retrieve_def
        retriever_titan_def score_nodes_def by_descending_score_def QueryBundle_def
        example_index_def example_embed_query_def example_similarity_def)
  have k: "(0::int) \<le> 2" by simp
  from retrieval_at_most_k_descending [OF k, of example_embed_query example_similarity
      "LLMRerank_postprocess_nodes SkipLine predict_nothing" example_index service_context_titan
      "''How has AWS evolved?''" 3] ev
  have "int (length ?ns) \<le> 2 \<and> sorted_wrt (\<lambda>a b. score b \<le> score a) ?ns" by blast
  with ev show ?thesis by (rule conjI)
qed

section \<open>Claims about the rerank stage\<close>

text \<open>
  C1, as amended. For every query, every candidate list the retriever returns, every
  answer of the model and every \<open>reranker_top_n \<ge> 0\<close>, the list that
  \<open>get_retrieved_nodes\<close> returns with \<open>with_reranker=True\<close> holds chunks of the
  candidate list only; its size is the smaller of \<open>reranker_top_n\<close> and the number
  of lines of the model's answers that name a candidate of their batch, hence at most
  \<open>reranker_top_n\<close>; and it is at most the number of candidates when no answer names
  a document number twice. When malformed lines are skipped, a list is returned
  whenever the retriever returned one.
\<close>

theorem rerank_returns_candidates_only:
  assumes "0 \<le> n"
  shows "(\<forall>cands out.
      retrieve (retriever_claude index k) (QueryBundle q) = Inr cands \<and>
      get_retrieved_nodes_claude retrieve (LLMRerank_postprocess_nodes policy predict)
        index sc q k n True = Inr out \<longrightarrow>
      node ` set out \<subseteq> node ` set cands \<and> length out \<le> nat n \<and>
      (\<exists>outs. list_all2 (\<lambda>b chosen. select_lines policy b
                   (predict (llm sc) (Some claude_choice_select_prompt, b, q)) = Inr chosen)
                 (batches 5 (map node cands)) outs \<and>
              length out = min (nat n) (length (concat outs))) \<and>
      ((\<forall>b. b \<in> set (batches 5 (map node cands)) \<longrightarrow>
            distinct (map fst (predict (llm sc) (Some claude_choice_select_prompt, b, q)))) \<longrightarrow>
       length out \<le> length cands)) \<and>
   (\<forall>cands out.
      retrieve (retriever_titan index k) (QueryBundle q) = Inr cands \<and>
      get_retrieved_nodes_titan retrieve (LLMRerank_postprocess_nodes policy predict)
        index sc q k n True = Inr out \<longrightarrow>
      node ` set out \<subseteq> node ` set cands \<and> length out \<le> nat n \<and>
      (\<exists>outs. list_all2 (\<lambda>b chosen. select_lines policy b
                   (predict (llm sc) (None, b, q)) = Inr chosen)
                 (batches 5 (map node cands)) outs \<and>
              length out = min (nat n) (length (concat outs))) \<and>
      ((\<forall>b. b \<in> set (batches 5 (map node cands)) \<longrightarrow>
            distinct (map fst (predict (llm sc) (None, b, q)))) \<longrightarrow>
       length out \<le> length cands)) \<and>
   (\<forall>cands. retrieve (retriever_claude index k) (QueryBundle q) = Inr cands \<longrightarrow>
      (\<exists>out. get_retrieved_nodes_claude retrieve (LLMRerank_postprocess_nodes SkipLine predict)
         index sc q k n True = Inr out)) \<and>
   (\<forall>cands. retrieve (retriever_titan index k) (QueryBundle q) = Inr cands \<longrightarrow>
      (\<exists>out. get_retrieved_nodes_titan retrieve (LLMRerank_postprocess_nodes SkipLine predict)
         index sc q k n True = Inr out))"
proof -
  have narrow:
    "node ` set out \<subseteq> node ` set cands \<and> length out \<le> nat (top_n reranker) \<and>
     (\<exists>outs. list_all2 (\<lambda>b chosen. select_lines policy b
                  (predict (llm (rerank_service_context reranker))
                     (choice_select_prompt reranker, b, query_str (QueryBundle q))) = Inr chosen)
                (batches 5 (map node cands)) outs \<and>
             length out = min (nat (top_n reranker)) (length (concat outs))) \<and>
     ((\<forall>b. b \<in> set (batches 5 (map node cands)) \<longrightarrow>
           distinct (map fst (predict (llm (rerank_service_context reranker))
                     (choice_select_prompt reranker, b, query_str (QueryBundle q))))) \<longrightarrow>
      length out \<le> length cands)"
    if post: "LLMRerank_postprocess_nodes policy predict reranker cands (QueryBundle q) = Inr out"
      and five: "choice_batch_size reranker = 5" for reranker cands out
  proof -
    let ?answer = "\<lambda>b. predict (llm (rerank_service_context reranker))
                     (choice_select_prompt reranker, b, query_str (QueryBundle q))"
    have pos: "0 < choice_batch_size reranker" using five by simp
    from postprocess_nodes_Inr [OF post] obtain issued where
      run: "LLMRerank_run policy predict reranker cands (QueryBundle q) = (issued, Inr out)"
      by blast
    from run_batches_of_five [OF run five] obtain outs where
      a: "list_all2 (\<lambda>b chosen. select_lines policy b (?answer b) = Inr chosen)
                (batches 5 (map node cands)) outs"
      and out: "out = take (nat (top_n reranker)) (by_descending_score (concat outs))"
      by blast
    have len: "length out = min (nat (top_n reranker)) (length (concat outs))"
      unfolding out by (rule top_length)
    have cat: "length (concat (batches 5 (map node cands))) = length cands"
      by (simp add: batches_concat)
    have bound: "length out \<le> length cands"
      if "\<forall>b. b \<in> set (batches 5 (map node cands)) \<longrightarrow> distinct (map fst (?answer b))"
    proof -
      have "length (concat outs) \<le> length (concat (batches 5 (map node cands)))"
        using a that by (intro chosen_length [of policy ?answer]) blast+
      with len cat show ?thesis by simp
    qed
    from a len bound postprocess_nodes_bounds(1,2) [OF post pos] show ?thesis by blast
  qed
  have one: "\<forall>cands out.
      retrieve (retriever_claude index k) (QueryBundle q) = Inr cands \<and>
      get_retrieved_nodes_claude retrieve (LLMRerank_postprocess_nodes policy predict)
        index sc q k n True = Inr out \<longrightarrow>
      node ` set out \<subseteq> node ` set cands \<and> length out \<le> nat n \<and>
      (\<exists>outs. list_all2 (\<lambda>b chosen. select_lines policy b
                   (predict (llm sc) (Some claude_choice_select_prompt, b, q)) = Inr chosen)
                 (batches 5 (map node cands)) outs \<and>
              length out = min (nat n) (length (concat outs))) \<and>
      ((\<forall>b. b \<in> set (batches 5 (map node cands)) \<longrightarrow>
            distinct (map fst (predict (llm sc) (Some claude_choice_select_prompt, b, q)))) \<longrightarrow>
       length out \<le> length cands)"
  proof (intro allI impI, elim conjE)
    fix cands out
    assume r: "retrieve (retriever_claude index k) (QueryBundle q) = Inr cands"
      and g: "get_retrieved_nodes_claude retrieve (LLMRerank_postprocess_nodes policy predict)
        index sc q k n True = Inr out"
    from g r have "LLMRerank_postprocess_nodes policy predict (reranker_claude sc n) cands
        (QueryBundle q) = Inr out"
      by (simp add: get_retrieved_nodes_claude_on)
    from narrow [OF this reranker_batch_size(1)]
    show "node ` set out \<subseteq> node ` set cands \<and> length out \<le> nat n \<and>
      (\<exists>outs. list_all2 (\<lambda>b chosen. select_lines policy b
                   (predict (llm sc) (Some claude_choice_select_prompt, b, q)) = Inr chosen)
                 (batches 5 (map node cands)) outs \<and>
              length out = min (nat n) (length (concat outs))) \<and>
      ((\<forall>b. b \<in> set (batches 5 (map node cands)) \<longrightarrow>
            distinct (map fst (predict (llm sc) (Some claude_choice_select_prompt, b, q)))) \<longrightarrow>
       length out \<le> length cands)"
      by (simp add: reranker_claude_def QueryBundle_def)
  qed
  have two: "\<forall>cands out.
      retrieve (retriever_titan index k) (QueryBundle q) = Inr cands \<and>
      get_retrieved_nodes_titan retrieve (LLMRerank_postprocess_nodes policy predict)
        index sc q k n True = Inr out \<longrightarrow>
      node ` set out \<subseteq> node ` set cands \<and> length out \<le> nat n \<and>
      (\<exists>outs. list_all2 (\<lambda>b chosen. select_lines policy b
                   (predict (llm sc) (None, b, q)) = Inr chosen)
                 (batches 5 (map node cands)) outs \<and>
              length out = min (nat n) (length (concat outs))) \<and>
      ((\<forall>b. b \<in> set (batches 5 (map node cands)) \<longrightarrow>
            distinct (map fst (predict (llm sc) (None, b, q)))) \<longrightarrow>
       length out \<le> length cands)"
  proof (intro allI impI, elim conjE)
    fix cands out
    assume r: "retrieve (retriever_titan index k) (QueryBundle q) = Inr cands"
      and g: "get_retrieved_nodes_titan retrieve (LLMRerank_postprocess_nodes policy predict)
        index sc q k n True = Inr out"
    from g r have "LLMRerank_postprocess_nodes policy predict (reranker_titan sc n) cands
        (QueryBundle q) = Inr out"
      by (simp add: get_retrieved_nodes_titan_on)
    from narrow [OF this reranker_batch_size(2)]
    show "node ` set out \<subseteq> node ` set cands \<and> length out \<le> nat n \<and>
      (\<exists>outs. list_all2 (\<lambda>b chosen. select_lines policy b
                   (predict (llm sc) (None, b, q)) = Inr chosen)
                 (batches 5 (map node cands)) outs \<and>
              length out = min (nat n) (length (concat outs))) \<and>
      ((\<forall>b. b \<in> set (batches 5 (map node cands)) \<longrightarrow>
            distinct (map fst (predict (llm sc) (None, b, q)))) \<longrightarrow>
       length out \<le> length cands)"
      by (simp add: reranker_titan_def QueryBundle_def)
  qed
  have returns: "\<exists>out. LLMRerank_postprocess_nodes SkipLine predict reranker cands (QueryBundle q)
      = Inr out" for reranker cands
    using LLMRerank_run_skip_returns [of predict reranker cands "QueryBundle q"]
    by (auto simp: LLMRerank_postprocess_nodes_def)
  have three: "\<forall>cands. retrieve (retriever_claude index k) (QueryBundle q) = Inr cands \<longrightarrow>
      (\<exists>out. get_retrieved_nodes_claude retrieve (LLMRerank_postprocess_nodes SkipLine predict)
         index sc q k n True = Inr out)"
    using returns by (simp add: get_retrieved_nodes_claude_on)
  have four: "\<forall>cands. retrieve (retriever_titan index k) (QueryBundle q) = Inr cands \<longrightarrow>
      (\<exists>out. get_retrieved_nodes_titan retrieve (LLMRerank_postprocess_nodes SkipLine predict)
         index sc q k n True = Inr out)"
    using returns by (simp add: get_retrieved_nodes_titan_on)
  from one two three four show ?thesis by (intro conjI)
qed

theorem rerank_returns_candidates_only_witness:
  "get_retrieved_nodes_titan (VectorIndexRetriever_retrieve example_embed_query example_similarity)
     (LLMRerank_postprocess_nodes SkipLine predict_second) example_index service_context_titan
     ''How has AWS evolved?'' 3 3 True
   = Inr [\<lparr>node = \<lparr>node_id = ''b'', get_text = ''Prime''\<rparr>, score = 8\<rparr>] \<and>
   length [\<lparr>node = \<lparr>node_id = ''b'', get_text = ''Prime''\<rparr>, score = 8\<rparr>]
     \<le> length [\<lparr>node = \<lparr>node_id = ''a'', get_text = ''AWS''\<rparr>, score = 9 / 10\<rparr>,
          \<lparr>node = \<lparr>node_id = ''b'', get_text = ''Prime''\<rparr>, score = 1 / 2\<rparr>,
          \<lparr>node = \<lparr>node_id = ''c'', get_text = ''Alexa''\<rparr>, score = 1 / 5\<rparr>] \<and>
   node ` set [\<lparr>node = \<lparr>node_id = ''b'', get_text = ''Prime''\<rparr>, score = 8\<rparr>]
     \<subseteq> node ` set [\<lparr>node = \<lparr>node_id = ''a'', get_text = ''AWS''\<rparr>, score = 9 / 10\<rparr>,
          \<lparr>node = \<lparr>node_id = ''b'', get_text = ''Prime''\<rparr>, score = 1 / 2\<rparr>,
          \<lparr>node = \<lparr>node_id = ''c'', get_text = ''Alexa''\<rparr>, score = 1 / 5\<rparr>]"
proof -
  let ?retrieve = "VectorIndexRetriever_retrieve example_embed_query example_similarity"
  let ?cands = "[\<lparr>node = \<lparr>node_id = ''a'', get_text = ''AWS''\<rparr>, score = 9 / 10\<rparr>,
          \<lparr>node = \<lparr>node_id = ''b'', get_text = ''Prime''\<rparr>, score = 1 / 2\<rparr>,
          \<lparr>node = \<lparr>node_id = ''c'', get_text = ''Alexa''\<rparr>, score = 1 / 5\<rparr>]"
  let ?out = "[\<lparr>node = \<lparr>node_id = ''b'', get_text = ''Prime''\<rparr>, score = 8\<rparr>]"
  have r: "?retrieve (retriever_titan example_index 3) (QueryBundle ''How has AWS evolved?'')
      = Inr ?cands"
    by (simp add: VectorIndexRetriever_retrieve_def retriever_titan_def score_nodes_def
        by_descending_score_def QueryBundle_def example_index_def example_embed_query_def
        example_similarity_def)
  have p: "LLMRerank_postprocess_nodes SkipLine predict_second
      (reranker_titan service_context_titan 3) ?cands (QueryBundle ''How has AWS evolved?'')
      = Inr ?out"
    by (simp add: reranker_titan_def by_descending_score_def QueryBundle_def predict_second_def
        LLMRerank_postprocess_nodes_def LLMRerank_run_def batches_def)
  have g: "get_retrieved_nodes_titan ?retrieve (LLMRerank_postprocess_nodes SkipLine predict_second)
      example_index service_context_titan ''How has AWS evolved?'' 3 3 True = Inr ?out"
    by (simp only: get_retrieved_nodes_titan_on r sum.case p)
  have d: "\<forall>b. b \<in> set (batches 5 (map node ?cands)) \<longrightarrow>
      distinct (map fst (predict_second (llm service_context_titan)
        (None, b, ''How has AWS evolved?'')))"
    by (simp add: predict_second_def)
  have top: "(0::int) \<le> 3" by simp
  from rerank_returns_candidates_only [where n = 3 and retrieve = ?retrieve
      and index = example_index and k = 3 and q = "''How has AWS evolved?''"
      and policy = SkipLine and predict = predict_second and sc = service_context_titan,
      OF top] r g d
  have "node ` set ?out \<subseteq> node ` set ?cands \<and> length ?out \<le> length ?cands" by blast
  with g show ?thesis by blast
qed

text \<open>
  C1 as stated fails on the Titan notebook's demonstration, where
  \<open>reranker_top_n = vector_top_k = 3\<close>: when the model's answer names one of the
  three candidates, one chunk is returned, not \<open>reranker_top_n\<close> chunks. The
  function also takes a \<open>reranker_top_n\<close> above \<open>vector_top_k\<close>: with
  \<open>vector_top_k=1, reranker_top_n=3\<close> it returns the one candidate. And the contract
  has no rule for an answer that names a document twice: read as it stands, one
  candidate then comes back twice.
\<close>

theorem rerank_size_counterexample:
  "\<not> (case retrieved_nodes1_withreranker_titan
            (VectorIndexRetriever_retrieve example_embed_query example_similarity)
            (LLMRerank_postprocess_nodes SkipLine predict_second) example_index of
         Inl e \<Rightarrow> False
       | Inr out \<Rightarrow> int (length out) = 3) \<and>
   get_retrieved_nodes_claude
     (VectorIndexRetriever_retrieve example_embed_query example_similarity)
     (LLMRerank_postprocess_nodes SkipLine predict_first) example_index service_context_claude
     ''How has AWS evolved?'' 1 3 True
   = Inr [\<lparr>node = \<lparr>node_id = ''a'', get_text = ''AWS''\<rparr>, score = 7\<rparr>] \<and>
   get_retrieved_nodes_claude
     (VectorIndexRetriever_retrieve example_embed_query example_similarity)
     (LLMRerank_postprocess_nodes SkipLine predict_twice) example_index service_context_claude
     ''How has AWS evolved?'' 1 3 True
   = Inr [\<lparr>node = \<lparr>node_id = ''a'', get_text = ''AWS''\<rparr>, score = 7\<rparr>,
          \<lparr>node = \<lparr>node_id = ''a'', get_text = ''AWS''\<rparr>, score = 3\<rparr>]"
  by (simp add: retrieved_nodes1_withreranker_titan_def get_retrieved_nodes_titan_on
      get_retrieved_nodes_claude_on retriever_claude_def reranker_claude_def
      VectorIndexRetriever_retrieve_def retriever_titan_def reranker_titan_def
      score_nodes_def by_descending_score_def QueryBundle_def predict_second_def
      predict_first_def predict_twice_def example_index_def example_embed_query_def
      example_similarity_def LLMRerank_postprocess_nodes_def LLMRerank_run_def batches_def)

text \<open>
  C3. As either notebook configures it (\<open>choice_batch_size=5\<close>), the reranker
  partitions every candidate list into consecutive batches of five, the last one
  possibly shorter and none empty; whenever it returns a list, it has issued exactly
  one choice-select request per batch, in order, each with the template, the batch and
  the query, and the list is the merged per-batch selections sorted by descending
  score and cut to the first \<open>top_n\<close>, for every \<open>top_n \<ge> 0\<close>. When malformed
  lines are skipped it always returns a list.
\<close>

theorem rerank_in_batches_of_five:
  assumes "reranker = reranker_claude sc n \<or> reranker = reranker_titan sc n" and "0 \<le> n"
  shows "concat (batches 5 (map node cands)) = map node cands \<and>
         length (batches 5 (map node cands)) = (length cands + 4) div 5 \<and>
         (\<forall>i. i < length (batches 5 (map node cands)) \<longrightarrow>
              0 < length (batches 5 (map node cands) ! i) \<and>
              length (batches 5 (map node cands) ! i) \<le> 5) \<and>
         (\<forall>i. Suc i < length (batches 5 (map node cands)) \<longrightarrow>
              length (batches 5 (map node cands) ! i) = 5) \<and>
         (\<forall>issued out.
            LLMRerank_run policy predict reranker cands qb = (issued, Inr out) \<longrightarrow>
            issued = map (\<lambda>b. (choice_select_prompt reranker, b, query_str qb))
                       (batches 5 (map node cands)) \<and>
            (\<exists>outs. list_all2 (\<lambda>b chosen. select_lines policy b
                         (predict (llm sc) (choice_select_prompt reranker, b, query_str qb))
                         = Inr chosen)
                       (batches 5 (map node cands)) outs \<and>
                    out = take (nat n) (by_descending_score (concat outs))) \<and>
            sorted_wrt (\<lambda>a b. score b \<le> score a) out \<and> length out \<le> nat n) \<and>
         (policy = SkipLine \<longrightarrow>
            (\<exists>issued out. LLMRerank_run policy predict reranker cands qb = (issued, Inr out)))"
proof -
  have five: "choice_batch_size reranker = 5" and top: "top_n reranker = n"
    and ctx: "rerank_service_context reranker = sc"
    using assms(1) by (auto simp: reranker_claude_def reranker_titan_def)
  have shape: "concat (batches 5 (map node cands)) = map node cands \<and>
         length (batches 5 (map node cands)) = (length cands + 4) div 5 \<and>
         (\<forall>i. i < length (batches 5 (map node cands)) \<longrightarrow>
              0 < length (batches 5 (map node cands) ! i) \<and>
              length (batches 5 (map node cands) ! i) \<le> 5) \<and>
         (\<forall>i. Suc i < length (batches 5 (map node cands)) \<longrightarrow>
              length (batches 5 (map node cands) ! i) = 5)"
    using five_batches [where xs = "map node cands"] by simp
  have run: "issued = map (\<lambda>b. (choice_select_prompt reranker, b, query_str qb))
                       (batches 5 (map node cands)) \<and>
            (\<exists>outs. list_all2 (\<lambda>b chosen. select_lines policy b
                         (predict (llm sc) (choice_select_prompt reranker, b, query_str qb))
                         = Inr chosen)
                       (batches 5 (map node cands)) outs \<and>
                    out = take (nat n) (by_descending_score (concat outs))) \<and>
            sorted_wrt (\<lambda>a b. score b \<le> score a) out \<and> length out \<le> nat n"
    if r: "LLMRerank_run policy predict reranker cands qb = (issued, Inr out)" for issued out
  proof -
    from run_batches_of_five [OF r five] obtain outs where
      i: "issued = map (\<lambda>b. (choice_select_prompt reranker, b, query_str qb))
                     (batches 5 (map node cands))"
      and a: "list_all2 (\<lambda>b chosen. select_lines policy b
                  (predict (llm sc) (choice_select_prompt reranker, b, query_str qb))
                  = Inr chosen) (batches 5 (map node cands)) outs"
      and out: "out = take (nat n) (by_descending_score (concat outs))"
      unfolding top ctx by blast
    have "sorted_wrt (\<lambda>a b. score b \<le> score a) out" unfolding out by (rule top_sorted)
    moreover have "length out \<le> nat n" unfolding out by simp
    ultimately show ?thesis using i a out by blast
  qed
  have total: "\<exists>issued out. LLMRerank_run policy predict reranker cands qb = (issued, Inr out)"
    if "policy = SkipLine"
    unfolding that by (rule LLMRerank_run_skip_returns)
  from shape run total show ?thesis by blast
qed

theorem rerank_in_batches_of_five_witness:
  "map length (batches 5 (map node example_candidates)) = [5, 2] \<and>
   length (fst (LLMRerank_run SkipLine predict_by_size (reranker_titan service_context_titan 3)
                  example_candidates (QueryBundle ''How has AWS evolved?''))) = 2 \<and>
   snd (LLMRerank_run SkipLine predict_by_size (reranker_titan service_context_titan 3)
          example_candidates (QueryBundle ''How has AWS evolved?''))
     = Inr [\<lparr>node = example_node ''5'', score = 9\<rparr>, \<lparr>node = example_node ''6'', score = 7\<rparr>,
            \<lparr>node = example_node ''2'', score = 4\<rparr>]"
proof -
  let ?run = "LLMRerank_run SkipLine predict_by_size (reranker_titan service_context_titan 3)
                example_candidates (QueryBundle ''How has AWS evolved?'')"
  have cfg: "reranker_titan service_context_titan 3 = reranker_claude service_context_titan 3 \<or>
      reranker_titan service_context_titan 3 = reranker_titan service_context_titan 3"
    by simp
  have top: "(0::int) \<le> 3" by simp
  note t = rerank_in_batches_of_five [where reranker = "reranker_titan service_context_titan 3"
      and sc = service_context_titan and n = 3 and cands = example_candidates
      and policy = SkipLine and predict = predict_by_size
      and qb = "QueryBundle ''How has AWS evolved?''", OF cfg top]
  have n: "length example_candidates = 7" by (simp add: example_candidates_def)
  from t obtain issued out where r: "?run = (issued, Inr out)" by blast
  with t have "issued = map (\<lambda>b. (choice_select_prompt (reranker_titan service_context_titan 3), b,
        query_str (QueryBundle ''How has AWS evolved?''))) (batches 5 (map node example_candidates))"
    by blast
  moreover from t have "length (batches 5 (map node example_candidates))
      = (length example_candidates + 4) div 5" by blast
  ultimately have "length issued = 2" by (simp add: n)
  with r have two: "length (fst ?run) = 2" by simp
  have u: "[0..<2] = [0, 1]" by (simp add: upt_rec)
  have one: "map length (batches 5 (map node example_candidates)) = [5, 2]"
    by (simp add: batches_def example_candidates_def u)
  have three: "snd ?run
     = Inr [\<lparr>node = example_node ''5'', score = 9\<rparr>, \<lparr>node = example_node ''6'', score = 7\<rparr>,
            \<lparr>node = example_node ''2'', score = 4\<rparr>]"
    by (simp add: LLMRerank_run_def batches_def example_candidates_def predict_by_size_def
        reranker_titan_def by_descending_score_def QueryBundle_def u)
  from one two three show ?thesis by (intro conjI)
qed




end
